theory Spec2Isabelle
  imports Main "HOL-Library.Sublist"
begin

section \<open>Configuration\<close>

text \<open>
  The module-level switches and the list of literal targets of \<^verbatim>\<open>scanner.py\<close>. They are
  constants of the module; the model passes them as a record, so that a property can be
  stated for every setting of the switches and for every list of targets.
\<close>

record config =
  ENABLE_A4 :: bool
  ENABLE_A3 :: bool
  ENABLE_ABC :: bool
  ENABLE_ABCD :: bool
  CUSTOM_TARGETS :: "string list"

text \<open>The values written in the source file.\<close>

definition default_config :: config where
  "default_config =
     \<lparr>ENABLE_A4 = True, ENABLE_A3 = True, ENABLE_ABC = False, ENABLE_ABCD = True,
      CUSTOM_TARGETS = [''888'', ''666'', ''520'', ''1314'']\<rparr>"

section \<open>Strings\<close>

text \<open>
  A Python \<^verbatim>\<open>str\<close> is modelled as a \<^typ>\<open>string\<close>: the bytes of its UTF-8
  encoding. Candidates and targets are ASCII; the Chinese text of the reason strings and
  the operator's line, which may hold any character, are kept as their bytes. The test \<^verbatim>\<open>t in s\<close> on two strings is \<^term>\<open>sublist t s\<close>: \<open>s\<close> is
  some prefix, then \<open>t\<close>, then some suffix (so the empty string is in every string).
\<close>

definition is_digit :: "char \<Rightarrow> bool" where
  "is_digit c = (c \<in> set ''0123456789'')"

definition py_slice :: "string \<Rightarrow> nat \<Rightarrow> nat \<Rightarrow> string" where
  "py_slice s i j = take (j - i) (drop i s)"

subsection \<open>The two regular expressions\<close>

text \<open>
  \<^verbatim>\<open>(\d)\1{k,}\<close> matched at the start of a string: a digit, then at least \<open>k\<close> more
  copies of it (\<open>k\<close> is 3 in line 83 and 2 in line 87). In an ASCII string \<^verbatim>\<open>\d\<close>
  matches the ten digits 0 to 9. \<^verbatim>\<open>re.search\<close> tries every start position from left
  to right and only its truth value is used.
\<close>

definition match_run_here :: "nat \<Rightarrow> string \<Rightarrow> bool" where
  "match_run_here k s =
     (case s of [] \<Rightarrow> False | c # cs \<Rightarrow> is_digit c \<and> take k cs = replicate k c)"

fun re_search_run :: "nat \<Rightarrow> string \<Rightarrow> bool" where
  "re_search_run k [] = False"
| "re_search_run k (c # cs) = (match_run_here k (c # cs) \<or> re_search_run k cs)"

subsection \<open>The sliding windows over the two digit sequences\<close>

definition forward_seq :: string where
  "forward_seq = ''0123456789''"

definition backward_seq :: string where
  "backward_seq = ''9876543210''"

text \<open>
  \<^verbatim>\<open>for i in range(len(seq) - (k - 1)): if seq[i:i+k] in phone_number: return ...\<close>:
  the windows in the order of the loop, and the first one found in the number.
\<close>

definition windows :: "nat \<Rightarrow> string \<Rightarrow> string list" where
  "windows k seq = map (\<lambda>i. py_slice seq i (i + k)) [0..<length seq - (k - 1)]"

definition first_window :: "nat \<Rightarrow> string \<Rightarrow> string \<Rightarrow> string option" where
  "first_window k seq phone_number = find (\<lambda>w. sublist w phone_number) (windows k seq)"

subsection \<open>The reason strings\<close>

text \<open>
  The literals of the source, byte for byte: each Chinese character is the three bytes of
  its UTF-8 encoding, the ASCII characters are themselves.

  \<^item> \<open>msg_empty\<close> (line 73): U+53F7 U+7801 U+4E3A U+7A7A, "the number is empty".
  \<^item> \<open>msg_ordinary\<close> (line 120): U+666E U+901A U+53F7 U+7801, "ordinary number".
  \<^item> \<open>msg_custom\<close> (line 80): U+7B26 U+5408 U+81EA U+5B9A U+4E49 U+76EE U+6807, a colon, a
    blank, U+5305 U+542B, a blank, and the target between two apostrophes: "meets a custom
    target: contains 'target'".
  \<^item> \<open>msg_rule\<close>: U+7B26 U+5408 U+89C4 U+5219, a colon and a blank, "meets the rule:",
    the common head of the literals of lines 84 to 118.
  \<^item> \<open>msg_A4\<close>, \<open>msg_A3\<close> (lines 84, 88): the head, A4 (or A3), U+8FDE U+53F7, a blank,
    an opening parenthesis, U+53D1 U+73B0 U+8FDE U+7EED, the digit 4 (or 3), U+4F4D U+91CD
    U+590D U+6570 U+5B57, a closing parenthesis: "A4 run (found 4 repeated digits in a row)".
    The two literals differ in the two digits only.
  \<^item> \<open>msg_forward\<close>, \<open>msg_backward\<close> (lines 97 to 118): the head, U+6B63 U+5411
    ("forward") or U+53CD U+5411 ("backward"), the window size as a digit, U+4F4D U+8FDE
    U+53F7, a blank, and the window between parentheses. The six literals differ in the
    direction and in the digit only.
\<close>

definition msg_empty :: string where
  "msg_empty = [CHR 0xE5, CHR 0x8F, CHR 0xB7, CHR 0xE7, CHR 0xA0, CHR 0x81,
                CHR 0xE4, CHR 0xB8, CHR 0xBA, CHR 0xE7, CHR 0xA9, CHR 0xBA]"

definition msg_ordinary :: string where
  "msg_ordinary = [CHR 0xE6, CHR 0x99, CHR 0xAE, CHR 0xE9, CHR 0x80, CHR 0x9A,
                   CHR 0xE5, CHR 0x8F, CHR 0xB7, CHR 0xE7, CHR 0xA0, CHR 0x81]"

definition msg_custom :: "string \<Rightarrow> string" where
  "msg_custom target =
     [CHR 0xE7, CHR 0xAC, CHR 0xA6, CHR 0xE5, CHR 0x90, CHR 0x88, CHR 0xE8, CHR 0x87, CHR 0xAA,
      CHR 0xE5, CHR 0xAE, CHR 0x9A, CHR 0xE4, CHR 0xB9, CHR 0x89, CHR 0xE7, CHR 0x9B, CHR 0xAE,
      CHR 0xE6, CHR 0xA0, CHR 0x87] @ '': '' @
     [CHR 0xE5, CHR 0x8C, CHR 0x85, CHR 0xE5, CHR 0x90, CHR 0xAB] @ '' '' @
     [CHR 0x27] @ target @ [CHR 0x27]"

definition msg_rule :: string where
  "msg_rule = [CHR 0xE7, CHR 0xAC, CHR 0xA6, CHR 0xE5, CHR 0x90, CHR 0x88,
               CHR 0xE8, CHR 0xA7, CHR 0x84, CHR 0xE5, CHR 0x88, CHR 0x99] @ '': ''"

definition msg_run :: "char \<Rightarrow> string" where
  "msg_run n =
     msg_rule @ [CHR ''A'', n] @
     [CHR 0xE8, CHR 0xBF, CHR 0x9E, CHR 0xE5, CHR 0x8F, CHR 0xB7] @ '' ('' @
     [CHR 0xE5, CHR 0x8F, CHR 0x91, CHR 0xE7, CHR 0x8E, CHR 0xB0,
      CHR 0xE8, CHR 0xBF, CHR 0x9E, CHR 0xE7, CHR 0xBB, CHR 0xAD] @ [n] @
     [CHR 0xE4, CHR 0xBD, CHR 0x8D, CHR 0xE9, CHR 0x87, CHR 0x8D, CHR 0xE5, CHR 0xA4, CHR 0x8D,
      CHR 0xE6, CHR 0x95, CHR 0xB0, CHR 0xE5, CHR 0xAD, CHR 0x97] @ '')''"

definition msg_A4 :: string where
  "msg_A4 = msg_run (CHR ''4'')"

definition msg_A3 :: string where
  "msg_A3 = msg_run (CHR ''3'')"

definition msg_seq :: "string \<Rightarrow> char \<Rightarrow> string \<Rightarrow> string" where
  "msg_seq direction n w =
     msg_rule @ direction @ [n] @
     [CHR 0xE4, CHR 0xBD, CHR 0x8D, CHR 0xE8, CHR 0xBF, CHR 0x9E, CHR 0xE5, CHR 0x8F, CHR 0xB7] @
     '' ('' @ w @ '')''"

definition msg_forward :: "char \<Rightarrow> string \<Rightarrow> string" where
  "msg_forward n w = msg_seq [CHR 0xE6, CHR 0xAD, CHR 0xA3, CHR 0xE5, CHR 0x90, CHR 0x91] n w"

definition msg_backward :: "char \<Rightarrow> string \<Rightarrow> string" where
  "msg_backward n w = msg_seq [CHR 0xE5, CHR 0x8F, CHR 0x8D, CHR 0xE5, CHR 0x90, CHR 0x91] n w"

section \<open>The rule engine: \<^verbatim>\<open>check_number_rules\<close>\<close>

text \<open>
  The argument is \<open>None\<close> (Python's \<^verbatim>\<open>None\<close>) or a string; on a string
  \<^verbatim>\<open>str(phone_number)\<close> is the identity. \<^verbatim>\<open>not phone_number\<close> holds for \<open>None\<close> and
  for the empty string. The branches are in the order of the source; each \<^verbatim>\<open>return\<close>
  ends the evaluation. \<open>check_sequences\<close> is the second half of the function (lines 90
  to 120): the six loops over the windows and the final \<^verbatim>\<open>return\<close>; the loop over
  \<^verbatim>\<open>CUSTOM_TARGETS\<close> (lines 78 to 80) is \<open>find\<close>, which gives the first target of
  the list that is in the number.
\<close>

definition check_sequences :: "config \<Rightarrow> string \<Rightarrow> bool \<times> string" where
  "check_sequences cfg phone_number =
     (case first_window 5 forward_seq phone_number of
        Some w \<Rightarrow> (True, msg_forward (CHR ''5'') w)
      | None \<Rightarrow>
     (case first_window 5 backward_seq phone_number of
        Some w \<Rightarrow> (True, msg_backward (CHR ''5'') w)
      | None \<Rightarrow>
     (case (if ENABLE_ABCD cfg then first_window 4 forward_seq phone_number else None) of
        Some w \<Rightarrow> (True, msg_forward (CHR ''4'') w)
      | None \<Rightarrow>
     (case (if ENABLE_ABCD cfg then first_window 4 backward_seq phone_number else None) of
        Some w \<Rightarrow> (True, msg_backward (CHR ''4'') w)
      | None \<Rightarrow>
     (case (if ENABLE_ABC cfg then first_window 3 forward_seq phone_number else None) of
        Some w \<Rightarrow> (True, msg_forward (CHR ''3'') w)
      | None \<Rightarrow>
     (case (if ENABLE_ABC cfg then first_window 3 backward_seq phone_number else None) of
        Some w \<Rightarrow> (True, msg_backward (CHR ''3'') w)
      | None \<Rightarrow> (False, msg_ordinary)))))))"

definition check_number_rules :: "config \<Rightarrow> string option \<Rightarrow> bool \<times> string" where
  "check_number_rules cfg phone_number =
     (case phone_number of
        None \<Rightarrow> (False, msg_empty)
      | Some s \<Rightarrow>
          if s = [] then (False, msg_empty)
          else (case find (\<lambda>target. sublist target s) (CUSTOM_TARGETS cfg) of
                  Some target \<Rightarrow> (True, msg_custom target)
                | None \<Rightarrow>
                    if ENABLE_A4 cfg \<and> re_search_run 3 s then (True, msg_A4)
                    else if ENABLE_A3 cfg \<and> re_search_run 2 s then (True, msg_A3)
                    else check_sequences cfg s))"

section \<open>The worker: \<^verbatim>\<open>worker_task\<close>\<close>

text \<open>
  \<^verbatim>\<open>worker_task(client)\<close> makes one call \<^verbatim>\<open>client.search_single_number()\<close>. The call is
  the worker's only effect, so the client is modelled by what that call does: it raises an
  exception (\<open>Inl\<close>) or returns the pair \<^verbatim>\<open>(number, raw_response)\<close>, each component
  possibly \<^verbatim>\<open>None\<close>. The number is the \<^verbatim>\<open>phoneNumber\<close> string of the response; the
  response payload is opaque (\<open>'r\<close>). An exception is an instance of Python's
  \<^verbatim>\<open>Exception\<close>, named by its class: the call raises, for instance, a
  \<^verbatim>\<open>TypeError\<close> on a response whose \<^verbatim>\<open>"data"\<close> entry is null.
\<close>

datatype py_exception = PyException string

type_synonym 'r query = "py_exception + (string option \<times> 'r option)"

text \<open>The returned dict: its \<^verbatim>\<open>"status"\<close> and, for a hit, the three other entries.\<close>

datatype 'r outcome = FOUND string string "'r option" | RETRY | ERROR

fun status :: "'r outcome \<Rightarrow> string" where
  "status (FOUND number reason response) = ''FOUND''"
| "status RETRY = ''RETRY''"
| "status ERROR = ''ERROR''"

text \<open>
  The body of the \<^verbatim>\<open>try\<close> block: an exception of the call leaves it at once;
  \<^verbatim>\<open>if number:\<close> fails for \<^verbatim>\<open>None\<close> and for the empty string, and the function then
  falls through to \<^verbatim>\<open>return {"status": "RETRY"}\<close>, as it does when the number is not
  matched.
\<close>

definition worker_body :: "config \<Rightarrow> 'r query \<Rightarrow> py_exception + 'r outcome" where
  "worker_body cfg q =
     (case q of
        Inl e \<Rightarrow> Inl e
      | Inr (number, raw_response) \<Rightarrow>
          (case number of
             None \<Rightarrow> Inr RETRY
           | Some s \<Rightarrow>
               if s = [] then Inr RETRY
               else (case check_number_rules cfg number of
                       (is_good, reason) \<Rightarrow>
                         if is_good then Inr (FOUND s reason raw_response) else Inr RETRY)))"

text \<open>
  \<^verbatim>\<open>try: ... except Exception as e: return {"status": "ERROR"}\<close>. The result type keeps
  \<open>Inl\<close> for an exception that would leave \<^verbatim>\<open>worker_task\<close>.
\<close>

definition worker_task :: "config \<Rightarrow> 'r query \<Rightarrow> py_exception + 'r outcome" where
  "worker_task cfg q =
     (case worker_body cfg q of Inl e \<Rightarrow> Inr ERROR | Inr result \<Rightarrow> Inr result)"

section \<open>The scheduler: the loop of \<^verbatim>\<open>main\<close>\<close>

subsection \<open>The operator's line\<close>

text \<open>
  The line that \<^verbatim>\<open>input\<close> returns is any Python \<^verbatim>\<open>str\<close>; it is modelled by its UTF-8
  bytes. \<^verbatim>\<open>str.strip()\<close> removes from both ends the characters that are whitespace
  for Python: U+0009 to U+000D, U+001C to U+001F, U+0020, U+0085, U+00A0, U+1680, U+2000
  to U+200A, U+2028, U+2029, U+202F, U+205F and U+3000. \<open>py_whitespace\<close> lists their
  encodings. In UTF-8 the first byte of such an encoding starts a character wherever it
  stands, so removing the encodings from the two ends of the bytes removes these
  characters from the two ends of the string, and nothing else.
\<close>

definition py_whitespace :: "string list" where
  "py_whitespace =
     [[CHR 0x09], [CHR 0x0A], [CHR 0x0B], [CHR 0x0C], [CHR 0x0D],
      [CHR 0x1C], [CHR 0x1D], [CHR 0x1E], [CHR 0x1F], [CHR 0x20],
      [CHR 0xC2, CHR 0x85], [CHR 0xC2, CHR 0xA0],
      [CHR 0xE1, CHR 0x9A, CHR 0x80],
      [CHR 0xE2, CHR 0x80, CHR 0x80], [CHR 0xE2, CHR 0x80, CHR 0x81],
      [CHR 0xE2, CHR 0x80, CHR 0x82], [CHR 0xE2, CHR 0x80, CHR 0x83],
      [CHR 0xE2, CHR 0x80, CHR 0x84], [CHR 0xE2, CHR 0x80, CHR 0x85],
      [CHR 0xE2, CHR 0x80, CHR 0x86], [CHR 0xE2, CHR 0x80, CHR 0x87],
      [CHR 0xE2, CHR 0x80, CHR 0x88], [CHR 0xE2, CHR 0x80, CHR 0x89],
      [CHR 0xE2, CHR 0x80, CHR 0x8A],
      [CHR 0xE2, CHR 0x80, CHR 0xA8], [CHR 0xE2, CHR 0x80, CHR 0xA9],
      [CHR 0xE2, CHR 0x80, CHR 0xAF],
      [CHR 0xE2, CHR 0x81, CHR 0x9F],
      [CHR 0xE3, CHR 0x80, CHR 0x80]]"

text \<open>
  Removing from the front, as long as the string starts with one of the given encodings.
\<close>

function strip_front :: "string list \<Rightarrow> string \<Rightarrow> string" where
  "strip_front ws s =
     (case find (\<lambda>e. e \<noteq> [] \<and> prefix e s) ws of
        Some e \<Rightarrow> strip_front ws (drop (length e) s)
      | None \<Rightarrow> s)"
  by pat_completeness auto
termination
  by (relation "measure (\<lambda>(ws, s). length s)") (auto simp: find_Some_iff prefix_def)

definition py_lstrip :: "string \<Rightarrow> string" where
  "py_lstrip s = strip_front py_whitespace s"

definition py_rstrip :: "string \<Rightarrow> string" where
  "py_rstrip s = rev (strip_front (map rev py_whitespace) (rev s))"

definition py_strip :: "string \<Rightarrow> string" where
  "py_strip s = py_rstrip (py_lstrip s)"

text \<open>
  \<^verbatim>\<open>str.lower()\<close> maps the letters A to Z to a to z and leaves every other ASCII
  character as it is. A character outside ASCII has a lower case that is not empty and
  is not the letter q (Q and q are the only characters whose lower case is q); the model
  leaves its bytes as they are, none of which is an ASCII byte. So the lowered line is the
  program's on ASCII lines, and on every line it is the string q exactly when the
  program's is.
\<close>

definition lower_char :: "char \<Rightarrow> char" where
  "lower_char c =
     (case map_of (zip ''ABCDEFGHIJKLMNOPQRSTUVWXYZ'' ''abcdefghijklmnopqrstuvwxyz'') c of
        Some l \<Rightarrow> l
      | None \<Rightarrow> c)"

definition py_lower :: "string \<Rightarrow> string" where
  "py_lower s = map lower_char s"

text \<open>\<^verbatim>\<open>user_input = input(...).strip().lower()\<close>, for the line that \<^verbatim>\<open>input\<close> read.\<close>

definition user_input :: "string \<Rightarrow> string" where
  "user_input line = py_lower (py_strip line)"

subsection \<open>State and history\<close>

text \<open>
  The loop runs in the main thread alone; the workers only produce the results it reads.
  Its state: the counter \<^verbatim>\<open>total_attempts\<close>, the flag \<^verbatim>\<open>allow_printing\<close>, the lines
  the operator has typed and the loop has not read yet, and a history of what the loop
  did, in order: rounds submitted, progress lines (with both counters), the block printed
  for a hit, the prompt, and the two messages after the operator's answer.
\<close>

datatype 'r event =
    Submit nat
  | Progress nat nat
  | Hit string string "'r option"
  | Prompt
  | Quit
  | Resumed
  | Sleep

record 'r session =
  total_attempts :: nat
  allow_printing :: bool
  stdin :: "string list"
  history :: "'r event list"

definition emit :: "'r event \<Rightarrow> 'r session \<Rightarrow> 'r session" where
  "emit e st = st\<lparr>history := history st @ [e]\<rparr>"

definition initial_session :: "string list \<Rightarrow> 'r session" where
  "initial_session lines =
     \<lparr>total_attempts = 0, allow_printing = True, stdin = lines, history = []\<rparr>"

text \<open>
  How a run stands: still in the loop, blocked in \<^verbatim>\<open>input\<close> waiting for the operator,
  ended by \<^verbatim>\<open>sys.exit\<close> with a code, or ended by an exception out of
  \<^verbatim>\<open>future.result()\<close>.
\<close>

datatype run_status = Running | AwaitingInput | Exited int | Crashed py_exception

subsection \<open>One round\<close>

text \<open>
  \<^verbatim>\<open>for future in as_completed(futures)\<close>: the list holds the round's calls in the order
  in which their workers complete. A hit is handled inside the loop body, before the next
  result is read.
\<close>

fun collect :: "config \<Rightarrow> 'r query list \<Rightarrow> nat \<Rightarrow> 'r session \<Rightarrow> run_status \<times> 'r session" where
  "collect cfg [] completed_in_batch st = (Running, st)"
| "collect cfg (q # qs) completed_in_batch st =
     (case worker_task cfg q of
        Inl e \<Rightarrow> (Crashed e, st)
      | Inr result \<Rightarrow>
          (let st1 = st\<lparr>total_attempts := total_attempts st + 1\<rparr>;
               c = completed_in_batch + 1;
               st2 = (if allow_printing st1 then emit (Progress (total_attempts st1) c) st1
                      else st1)
           in case result of
                FOUND number reason response \<Rightarrow>
                  (let st3 = emit Prompt
                               (emit (Hit number reason response) (st2\<lparr>allow_printing := False\<rparr>))
                   in case stdin st3 of
                        [] \<Rightarrow> (AwaitingInput, st3)
                      | line # rest \<Rightarrow>
                          if user_input line = ''q''
                          then (Exited 0, emit Quit (st3\<lparr>stdin := rest\<rparr>))
                          else collect cfg qs c
                                 ((emit Resumed (st3\<lparr>stdin := rest\<rparr>))\<lparr>allow_printing := True\<rparr>))
              | _ \<Rightarrow> collect cfg qs c st2))"

subsection \<open>The rounds\<close>

text \<open>
  \<^verbatim>\<open>while True\<close>: submit a round of workers, collect it, sleep, again. The loop has no
  exit of its own, so the model runs it over the rounds it is given (each the list of the
  \<^verbatim>\<open>CONCURRENT_WORKERS\<close> calls of that round) and answers \<open>Running\<close> when they are
  used up.
\<close>

fun main_loop :: "config \<Rightarrow> 'r query list list \<Rightarrow> 'r session \<Rightarrow> run_status \<times> 'r session" where
  "main_loop cfg [] st = (Running, st)"
| "main_loop cfg (round # rounds) st =
     (case collect cfg round 0 (emit (Submit (length round)) st) of
        (Running, st') \<Rightarrow> main_loop cfg rounds (emit Sleep st')
      | (other, st') \<Rightarrow> (other, st'))"

definition submitted :: "'r session \<Rightarrow> nat list" where
  "submitted st = concat (map (\<lambda>e. case e of Submit n \<Rightarrow> [n] | _ \<Rightarrow> []) (history st))"

text \<open>
  \<^verbatim>\<open>main\<close> starts the loop with the counter at zero and printing allowed; \<open>lines\<close>
  are the lines the operator types.
\<close>

definition main :: "config \<Rightarrow> 'r query list list \<Rightarrow> string list \<Rightarrow> run_status \<times> 'r session" where
  "main cfg rounds lines = main_loop cfg rounds (initial_session lines)"

section \<open>Notions used to state the properties\<close>

text \<open>
  What the specification's rule list speaks of, said without reference to the code: a
  string holds \<open>n\<close> consecutive occurrences of one digit; it holds a run of \<open>n\<close>
  characters that is a contiguous part of the ascending or of the descending digit
  sequence; some rule of the list applies to it under a configuration.
\<close>

definition has_run :: "nat \<Rightarrow> string \<Rightarrow> bool" where
  "has_run n s = (\<exists>d. is_digit d \<and> sublist (replicate n d) s)"

definition has_seq :: "nat \<Rightarrow> string \<Rightarrow> bool" where
  "has_seq n s =
     (\<exists>w. length w = n \<and> (sublist w forward_seq \<or> sublist w backward_seq) \<and> sublist w s)"

definition has_target :: "config \<Rightarrow> string \<Rightarrow> bool" where
  "has_target cfg s = (\<exists>t \<in> set (CUSTOM_TARGETS cfg). sublist t s)"

definition rule_fires :: "config \<Rightarrow> string \<Rightarrow> bool" where
  "rule_fires cfg s =
     (has_target cfg s \<or>
      (ENABLE_A4 cfg \<and> has_run 4 s) \<or>
      (ENABLE_A3 cfg \<and> has_run 3 s) \<or>
      has_seq 5 s \<or>
      (ENABLE_ABCD cfg \<and> has_seq 4 s) \<or>
      (ENABLE_ABC cfg \<and> has_seq 3 s))"

text \<open>
  The rules by name, the reason string that stands for each, the condition under which
  each applies, and the run a sequence rule reports.
\<close>

datatype rule =
    Literal string
  | RunA4
  | RunA3
  | Up5 string
  | Down5 string
  | Up4 string
  | Down4 string
  | Up3 string
  | Down3 string

fun reason_of :: "rule \<Rightarrow> string" where
  "reason_of (Literal t) = msg_custom t"
| "reason_of RunA4 = msg_A4"
| "reason_of RunA3 = msg_A3"
| "reason_of (Up5 w) = msg_forward (CHR ''5'') w"
| "reason_of (Down5 w) = msg_backward (CHR ''5'') w"
| "reason_of (Up4 w) = msg_forward (CHR ''4'') w"
| "reason_of (Down4 w) = msg_backward (CHR ''4'') w"
| "reason_of (Up3 w) = msg_forward (CHR ''3'') w"
| "reason_of (Down3 w) = msg_backward (CHR ''3'') w"

definition is_window :: "nat \<Rightarrow> string \<Rightarrow> string \<Rightarrow> string \<Rightarrow> bool" where
  "is_window n seq w s = (length w = n \<and> sublist w seq \<and> sublist w s)"

fun applies :: "config \<Rightarrow> string \<Rightarrow> rule \<Rightarrow> bool" where
  "applies cfg s (Literal t) = (t \<in> set (CUSTOM_TARGETS cfg) \<and> sublist t s)"
| "applies cfg s RunA4 = (ENABLE_A4 cfg \<and> has_run 4 s)"
| "applies cfg s RunA3 = (ENABLE_A3 cfg \<and> has_run 3 s)"
| "applies cfg s (Up5 w) = is_window 5 forward_seq w s"
| "applies cfg s (Down5 w) = is_window 5 backward_seq w s"
| "applies cfg s (Up4 w) = (ENABLE_ABCD cfg \<and> is_window 4 forward_seq w s)"
| "applies cfg s (Down4 w) = (ENABLE_ABCD cfg \<and> is_window 4 backward_seq w s)"
| "applies cfg s (Up3 w) = (ENABLE_ABC cfg \<and> is_window 3 forward_seq w s)"
| "applies cfg s (Down3 w) = (ENABLE_ABC cfg \<and> is_window 3 backward_seq w s)"

fun run_of :: "rule \<Rightarrow> string option" where
  "run_of (Literal t) = None"
| "run_of RunA4 = None"
| "run_of RunA3 = None"
| "run_of (Up5 w) = Some w"
| "run_of (Down5 w) = Some w"
| "run_of (Up4 w) = Some w"
| "run_of (Down4 w) = Some w"
| "run_of (Up3 w) = Some w"
| "run_of (Down3 w) = Some w"

text \<open>A call whose worker reports a hit under the configuration.\<close>

definition is_hit :: "config \<Rightarrow> 'r query \<Rightarrow> bool" where
  "is_hit cfg q = (case worker_task cfg q of Inr (FOUND n r raw) \<Rightarrow> True | _ \<Rightarrow> False)"

section \<open>Concrete configurations and calls\<close>

text \<open>
  A call that yields a number holding the target 888, and one that yields a number on
  which no rule of the default configuration fires.
\<close>

definition hit_query :: "unit query" where
  "hit_query = Inr (Some ''8881234'', Some ())"

definition miss_query :: "unit query" where
  "miss_query = Inr (Some ''13579'', Some ())"

text \<open>
  A round of ten workers in completion order: two calls without a candidate, then the
  hit, then seven ordinary numbers.
\<close>

definition round10 :: "unit query list" where
  "round10 = replicate 2 (Inr (None, None)) @ [hit_query] @ replicate 7 miss_query"

section \<open>The regular expressions and the windows, characterised\<close>

lemma match_run_here_iff:
  "match_run_here k s \<longleftrightarrow> (\<exists>d. is_digit d \<and> prefix (replicate (Suc k) d) s)"
proof (cases s)
  case Nil
  then show ?thesis by (simp add: match_run_here_def)
next
  case (Cons c cs)
  have "take k cs = replicate k c \<longleftrightarrow> prefix (replicate k c) cs"
    by (metis append_eq_conv_conj length_replicate prefix_def)
  then show ?thesis
    using Cons by (auto simp: match_run_here_def)
qed

lemma re_search_run_iff: "re_search_run k s \<longleftrightarrow> has_run (Suc k) s"
proof (induction s)
  case Nil
  then show ?case by (simp add: has_run_def)
next
  case (Cons c cs)
  have "has_run (Suc k) (c # cs) \<longleftrightarrow>
          (\<exists>d. is_digit d \<and> prefix (replicate (Suc k) d) (c # cs)) \<or> has_run (Suc k) cs"
    unfolding has_run_def by (subst sublist_Cons_right) blast
  with Cons show ?case
    by (simp only: re_search_run.simps match_run_here_iff)
qed

lemma windows_iff:
  assumes "0 < k" "k \<le> length seq"
  shows "w \<in> set (windows k seq) \<longleftrightarrow> sublist w seq \<and> length w = k"
proof
  assume "w \<in> set (windows k seq)"
  then obtain i where i: "i < length seq - (k - 1)" and w: "w = take k (drop i seq)"
    by (auto simp: windows_def py_slice_def)
  have "sublist w seq"
    unfolding w by (meson sublist_drop sublist_order.order_trans sublist_take)
  moreover have "length w = k" using i assms by (simp add: w)
  ultimately show "sublist w seq \<and> length w = k" ..
next
  assume a: "sublist w seq \<and> length w = k"
  then obtain ps ss where seq: "seq = ps @ w @ ss" by (auto simp: sublist_def)
  have "length ps < length seq - (k - 1)" using a assms seq by simp
  moreover have "py_slice seq (length ps) (length ps + k) = w"
    using a by (simp add: py_slice_def seq)
  ultimately have "\<exists>i \<in> set [0..<length seq - (k - 1)]. py_slice seq i (i + k) = w"
    by auto
  then show "w \<in> set (windows k seq)"
    unfolding windows_def by auto
qed

lemma first_window_None_iff:
  "first_window k seq s = None \<longleftrightarrow> (\<forall>w \<in> set (windows k seq). \<not> sublist w s)"
  by (auto simp: first_window_def find_None_iff)

lemma first_window_SomeD:
  "first_window k seq s = Some w \<Longrightarrow> w \<in> set (windows k seq) \<and> sublist w s"
  by (auto simp: first_window_def find_Some_iff)

lemma first_window_is_window:
  assumes "first_window k seq s = Some w" "0 < k" "k \<le> length seq"
  shows "is_window k seq w s"
  using first_window_SomeD[OF assms(1)] windows_iff[OF assms(2,3)]
  by (simp add: is_window_def)

lemma has_seq_iff:
  assumes "0 < k" "k \<le> 10"
  shows "has_seq k s \<longleftrightarrow>
           first_window k forward_seq s \<noteq> None \<or> first_window k backward_seq s \<noteq> None"
proof -
  have f: "k \<le> length forward_seq" and b: "k \<le> length backward_seq"
    using assms by (simp_all add: forward_seq_def backward_seq_def)
  show ?thesis
    unfolding has_seq_def first_window_None_iff
    using windows_iff[OF assms(1) f] windows_iff[OF assms(1) b] by blast
qed

lemma find_target_None_iff:
  "find (\<lambda>target. sublist target s) (CUSTOM_TARGETS cfg) = None \<longleftrightarrow> \<not> has_target cfg s"
  by (auto simp: has_target_def find_None_iff)

section \<open>When the rule engine fires\<close>

lemma re_search_run_3: "re_search_run 3 s \<longleftrightarrow> has_run 4 s"
  using re_search_run_iff[of 3 s] by simp

lemma re_search_run_2: "re_search_run 2 s \<longleftrightarrow> has_run 3 s"
  using re_search_run_iff[of 2 s] by (simp add: eval_nat_numeral)

lemma check_sequences_fires:
  "fst (check_sequences cfg s) \<longleftrightarrow>
     has_seq 5 s \<or> (ENABLE_ABCD cfg \<and> has_seq 4 s) \<or> (ENABLE_ABC cfg \<and> has_seq 3 s)"
  by (auto simp: check_sequences_def has_seq_iff split: option.splits)

lemma check_sequences_ordinary:
  "\<not> fst (check_sequences cfg s) \<Longrightarrow> check_sequences cfg s = (False, msg_ordinary)"
  by (auto simp: check_sequences_def split: option.splits if_splits)

lemma check_number_rules_fires:
  assumes "s \<noteq> []"
  shows "fst (check_number_rules cfg (Some s)) \<longleftrightarrow> rule_fires cfg s"
proof (cases "has_target cfg s")
  case True
  then obtain t where "find (\<lambda>target. sublist target s) (CUSTOM_TARGETS cfg) = Some t"
    using find_target_None_iff[of s cfg] by auto
  with True assms show ?thesis
    by (simp add: check_number_rules_def rule_fires_def)
next
  case False
  then have "find (\<lambda>target. sublist target s) (CUSTOM_TARGETS cfg) = None"
    by (simp add: find_target_None_iff)
  with False assms show ?thesis
    by (auto simp: check_number_rules_def rule_fires_def re_search_run_3 re_search_run_2
          check_sequences_fires)
qed

lemma check_number_rules_ordinary:
  assumes "s \<noteq> []" "\<not> fst (check_number_rules cfg (Some s))"
  shows "check_number_rules cfg (Some s) = (False, msg_ordinary)"
  using assms
  by (auto simp: check_number_rules_def check_sequences_ordinary split: option.splits if_splits)

lemma rule_fires_code:
  "rule_fires cfg s \<longleftrightarrow>
     find (\<lambda>target. sublist target s) (CUSTOM_TARGETS cfg) \<noteq> None \<or>
     (ENABLE_A4 cfg \<and> re_search_run 3 s) \<or>
     (ENABLE_A3 cfg \<and> re_search_run 2 s) \<or>
     first_window 5 forward_seq s \<noteq> None \<or> first_window 5 backward_seq s \<noteq> None \<or>
     (ENABLE_ABCD cfg \<and>
        (first_window 4 forward_seq s \<noteq> None \<or> first_window 4 backward_seq s \<noteq> None)) \<or>
     (ENABLE_ABC cfg \<and>
        (first_window 3 forward_seq s \<noteq> None \<or> first_window 3 backward_seq s \<noteq> None))"
  by (simp add: rule_fires_def find_target_None_iff re_search_run_3 re_search_run_2 has_seq_iff)

lemma has_run_mono:
  assumes "m \<le> n" "has_run n s"
  shows "has_run m s"
proof -
  from assms(2) obtain d where d: "is_digit d" "sublist (replicate n d) s"
    by (auto simp: has_run_def)
  have "replicate n d = replicate m d @ replicate (n - m) d"
    using assms(1) by (simp flip: replicate_add)
  then have "sublist (replicate m d) (replicate n d)" by simp
  with d show ?thesis
    unfolding has_run_def by (meson sublist_order.order_trans)
qed

section \<open>The reason strings name the rules\<close>

lemma sublist_msg_seq: "sublist w (msg_seq dir n w)"
  unfolding msg_seq_def sublist_def by (metis append.assoc)

lemma reason_of_inj: "reason_of r = reason_of r' \<Longrightarrow> r = r'"
  by (cases r; cases r')
     (simp_all add: msg_custom_def msg_A4_def msg_A3_def msg_run_def msg_rule_def
        msg_forward_def msg_backward_def msg_seq_def)

lemma check_sequences_reason:
  assumes "fst (check_sequences cfg s)"
  shows "\<exists>r w. check_sequences cfg s = (True, reason_of r) \<and> applies cfg s r \<and>
               run_of r = Some w \<and> sublist w (reason_of r) \<and> sublist w s"
proof -
  have len: "5 \<le> length forward_seq" "5 \<le> length backward_seq"
    "4 \<le> length forward_seq" "4 \<le> length backward_seq"
    "3 \<le> length forward_seq" "3 \<le> length backward_seq"
    by (simp_all add: forward_seq_def backward_seq_def)
  consider
      (u5) w where "first_window 5 forward_seq s = Some w"
        "check_sequences cfg s = (True, reason_of (Up5 w))"
    | (d5) w where "first_window 5 backward_seq s = Some w"
        "check_sequences cfg s = (True, reason_of (Down5 w))"
    | (u4) w where "ENABLE_ABCD cfg" "first_window 4 forward_seq s = Some w"
        "check_sequences cfg s = (True, reason_of (Up4 w))"
    | (d4) w where "ENABLE_ABCD cfg" "first_window 4 backward_seq s = Some w"
        "check_sequences cfg s = (True, reason_of (Down4 w))"
    | (u3) w where "ENABLE_ABC cfg" "first_window 3 forward_seq s = Some w"
        "check_sequences cfg s = (True, reason_of (Up3 w))"
    | (d3) w where "ENABLE_ABC cfg" "first_window 3 backward_seq s = Some w"
        "check_sequences cfg s = (True, reason_of (Down3 w))"
    using assms by (auto simp: check_sequences_def split: option.splits if_splits)
  then show ?thesis
  proof cases
    case u5
    have "is_window 5 forward_seq w s"
      using first_window_is_window[OF u5(1)] len by simp
    then have "applies cfg s (Up5 w) \<and> run_of (Up5 w) = Some w \<and>
               sublist w (reason_of (Up5 w)) \<and> sublist w s"
      by (simp add: is_window_def msg_forward_def sublist_msg_seq)
    with u5(2) show ?thesis by blast
  next
    case d5
    have "is_window 5 backward_seq w s"
      using first_window_is_window[OF d5(1)] len by simp
    then have "applies cfg s (Down5 w) \<and> run_of (Down5 w) = Some w \<and>
               sublist w (reason_of (Down5 w)) \<and> sublist w s"
      by (simp add: is_window_def msg_backward_def sublist_msg_seq)
    with d5(2) show ?thesis by blast
  next
    case u4
    have "is_window 4 forward_seq w s"
      using first_window_is_window[OF u4(2)] len by simp
    then have "applies cfg s (Up4 w) \<and> run_of (Up4 w) = Some w \<and>
               sublist w (reason_of (Up4 w)) \<and> sublist w s"
      using u4(1) by (simp add: is_window_def msg_forward_def sublist_msg_seq)
    with u4(3) show ?thesis by blast
  next
    case d4
    have "is_window 4 backward_seq w s"
      using first_window_is_window[OF d4(2)] len by simp
    then have "applies cfg s (Down4 w) \<and> run_of (Down4 w) = Some w \<and>
               sublist w (reason_of (Down4 w)) \<and> sublist w s"
      using d4(1) by (simp add: is_window_def msg_backward_def sublist_msg_seq)
    with d4(3) show ?thesis by blast
  next
    case u3
    have "is_window 3 forward_seq w s"
      using first_window_is_window[OF u3(2)] len by simp
    then have "applies cfg s (Up3 w) \<and> run_of (Up3 w) = Some w \<and>
               sublist w (reason_of (Up3 w)) \<and> sublist w s"
      using u3(1) by (simp add: is_window_def msg_forward_def sublist_msg_seq)
    with u3(3) show ?thesis by blast
  next
    case d3
    have "is_window 3 backward_seq w s"
      using first_window_is_window[OF d3(2)] len by simp
    then have "applies cfg s (Down3 w) \<and> run_of (Down3 w) = Some w \<and>
               sublist w (reason_of (Down3 w)) \<and> sublist w s"
      using d3(1) by (simp add: is_window_def msg_backward_def sublist_msg_seq)
    with d3(3) show ?thesis by blast
  qed
qed

section \<open>The worker and the rounds\<close>

lemma worker_task_Inr: "\<exists>result. worker_task cfg q = Inr result"
  by (simp add: worker_task_def split: sum.splits)

lemma worker_task_status:
  "worker_task cfg q = Inr result \<Longrightarrow> status result \<in> {''FOUND'', ''RETRY'', ''ERROR''}"
  by (cases result) simp_all

lemma collect_miss:
  assumes "\<not> is_hit cfg q"
  shows "\<exists>st'. collect cfg (q # qs) c st = collect cfg qs (Suc c) st' \<and>
           total_attempts st' = Suc (total_attempts st) \<and> stdin st' = stdin st \<and>
           allow_printing st' = allow_printing st \<and> submitted st' = submitted st"
proof -
  obtain result where r: "worker_task cfg q = Inr result"
    using worker_task_Inr by blast
  with assms have nf: "\<And>n x raw. result \<noteq> FOUND n x raw"
    by (auto simp: is_hit_def)
  show ?thesis
    using r nf by (cases result) (auto simp: Let_def emit_def submitted_def)
qed

lemma collect_misses:
  assumes "\<forall>q \<in> set pre. \<not> is_hit cfg q"
  shows "\<exists>st'. collect cfg (pre @ qs) c st = collect cfg qs (c + length pre) st' \<and>
           total_attempts st' = total_attempts st + length pre \<and> stdin st' = stdin st \<and>
           allow_printing st' = allow_printing st \<and> submitted st' = submitted st"
  using assms
proof (induction pre arbitrary: c st)
  case Nil
  show ?case by (intro exI[of _ st]) simp
next
  case (Cons q pre)
  from Cons.prems have "\<not> is_hit cfg q" by simp
  from collect_miss[OF this, of "pre @ qs" c st]
  obtain st1 where 1: "collect cfg (q # pre @ qs) c st = collect cfg (pre @ qs) (Suc c) st1"
    "total_attempts st1 = Suc (total_attempts st)" "stdin st1 = stdin st"
    "allow_printing st1 = allow_printing st" "submitted st1 = submitted st"
    by blast
  from Cons.prems have "\<forall>q \<in> set pre. \<not> is_hit cfg q" by simp
  from Cons.IH[OF this, of "Suc c" st1]
  obtain st2 where 2: "collect cfg (pre @ qs) (Suc c) st1 = collect cfg qs (Suc c + length pre) st2"
    "total_attempts st2 = total_attempts st1 + length pre" "stdin st2 = stdin st1"
    "allow_printing st2 = allow_printing st1" "submitted st2 = submitted st1"
    by blast
  from 1 2 show ?case by (intro exI[of _ st2]) simp
qed

lemma collect_hit_blocked:
  assumes "is_hit cfg q" "stdin st = []"
  shows "\<exists>st'. collect cfg (q # qs) c st = (AwaitingInput, st') \<and>
           total_attempts st' = Suc (total_attempts st) \<and> submitted st' = submitted st"
proof -
  from assms(1) obtain n x raw where "worker_task cfg q = Inr (FOUND n x raw)"
    by (auto simp: is_hit_def split: sum.splits outcome.splits)
  then show ?thesis
    using assms(2) by (auto simp: Let_def emit_def submitted_def)
qed

lemma collect_hit_stop:
  assumes "is_hit cfg q" "stdin st = line # rest" "user_input line = ''q''"
  shows "\<exists>st'. collect cfg (q # qs) c st = (Exited 0, st') \<and>
           total_attempts st' = Suc (total_attempts st) \<and> submitted st' = submitted st"
proof -
  from assms(1) obtain n x raw where "worker_task cfg q = Inr (FOUND n x raw)"
    by (auto simp: is_hit_def split: sum.splits outcome.splits)
  then show ?thesis
    using assms(2,3) by (auto simp: Let_def emit_def submitted_def)
qed

lemma collect_hit_continue:
  assumes "is_hit cfg q" "stdin st = line # rest" "user_input line \<noteq> ''q''"
  shows "\<exists>st'. collect cfg (q # qs) c st = collect cfg qs (Suc c) st' \<and>
           total_attempts st' = Suc (total_attempts st) \<and> submitted st' = submitted st \<and>
           stdin st' = rest \<and> allow_printing st'"
proof -
  from assms(1) obtain n x raw where "worker_task cfg q = Inr (FOUND n x raw)"
    by (auto simp: is_hit_def split: sum.splits outcome.splits)
  then show ?thesis
    using assms(2,3) by (auto simp: Let_def emit_def submitted_def)
qed

lemma submitted_emit_Submit: "submitted (emit (Submit n) st) = submitted st @ [n]"
  by (simp add: submitted_def emit_def)

lemma session_emit_simps:
  "total_attempts (emit e st) = total_attempts st"
  "stdin (emit e st) = stdin st"
  "allow_printing (emit e st) = allow_printing st"
  by (simp_all add: emit_def)

lemma submitted_emit_Sleep: "submitted (emit Sleep st) = submitted st"
  by (simp add: submitted_def emit_def)

lemma lower_char_q: "lower_char c = CHR ''q'' \<longleftrightarrow> c = CHR ''q'' \<or> c = CHR ''Q''"
  by (auto simp: lower_char_def split: option.splits if_splits)

lemma user_input_q: "user_input line = ''q'' \<longleftrightarrow> py_strip line = ''q'' \<or> py_strip line = ''Q''"
  by (cases "py_strip line") (auto simp: user_input_def py_lower_def lower_char_q)

lemma is_hit_examples:
  "is_hit default_config hit_query" "\<not> is_hit default_config miss_query"
  by code_simp+

section \<open>The claims\<close>

subsection \<open>C1: literal targets\<close>

text \<open>
  C1: for every candidate (a non-empty string, as the input constraint of the rule engine
  has it; the empty candidate is the subject of C6) that contains at least one configured
  literal target, \<^verbatim>\<open>check_number_rules\<close> returns matched = true, and the reason is the
  one built from the first such target in the order of the configured list, whatever the
  four switches are; that reason contains the target.
\<close>

theorem literal_target_first_match:
  assumes "s \<noteq> []"
    and "CUSTOM_TARGETS cfg = earlier @ t # later"
    and "\<forall>u \<in> set earlier. \<not> sublist u s"
    and "sublist t s"
  shows "check_number_rules cfg (Some s) = (True, msg_custom t) \<and> sublist t (msg_custom t)"
proof -
  have "find (\<lambda>target. sublist target s) (CUSTOM_TARGETS cfg) = Some t"
    using assms(2-4) by (auto simp: find_Some_iff nth_append intro!: exI[of _ "length earlier"])
  then have "check_number_rules cfg (Some s) = (True, msg_custom t)"
    using assms(1) by (simp add: check_number_rules_def)
  moreover have "sublist t (msg_custom t)"
    unfolding msg_custom_def sublist_def by (metis append.assoc)
  ultimately show ?thesis ..
qed

text \<open>The number 88812345 under the default configuration, whose first target is 888.\<close>

theorem literal_target_first_match_witness:
  "check_number_rules default_config (Some ''88812345'') = (True, msg_custom ''888'') \<and>
   sublist ''888'' (msg_custom ''888'')"
  using literal_target_first_match[of "''88812345''" default_config "[]" "''888''"
      "[''666'', ''520'', ''1314'']"]
  by (simp add: default_config_def sublist_code)

subsection \<open>C2: the five-digit run\<close>

text \<open>
  C2: a string that contains five consecutive characters of 0123456789 or of 9876543210
  is matched under every configuration: whatever the four switches and the targets are.
\<close>

theorem five_run_unconditional:
  assumes "length w = 5"
    and "sublist w forward_seq \<or> sublist w backward_seq"
    and "sublist w s"
  shows "fst (check_number_rules cfg (Some s))"
proof -
  have "s \<noteq> []" using assms(1,3) by auto
  moreover have "rule_fires cfg s"
    using assms unfolding rule_fires_def has_seq_def by blast
  ultimately show ?thesis by (simp add: check_number_rules_fires)
qed

text \<open>The number 12345 with all four switches off and no target.\<close>

theorem five_run_unconditional_witness:
  "fst (check_number_rules
          \<lparr>ENABLE_A4 = False, ENABLE_A3 = False, ENABLE_ABC = False, ENABLE_ABCD = False,
           CUSTOM_TARGETS = []\<rparr> (Some ''12345''))"
  using five_run_unconditional[of "''12345''" "''12345''"]
  by (simp add: forward_seq_def sublist_code)

subsection \<open>C3: a hit in the middle of a round\<close>

text \<open>
  C3, as stated, has every outcome of the round counted before the operator is prompted.
  In a round of ten whose third result is the hit, the loop stands at the prompt with
  three attempts counted, not ten.
\<close>

theorem gate_before_round_counted:
  "length round10 = 10 \<and>
   fst (main default_config [round10] []) = AwaitingInput \<and>
   total_attempts (snd (main default_config [round10] [])) = 3"
  by code_simp

text \<open>
  C3 (amended): when the hit is the result read after \<open>length pre\<close> results without a
  hit, the operator is prompted at once. While the loop waits for the answer, exactly
  those results and the hit have been counted, and only the current round has been
  submitted, whatever rounds would follow. The remaining results of the round are counted
  after the operator has answered with something other than the stop token.
\<close>

theorem gate_presented_at_once:
  assumes "\<forall>q \<in> set pre. \<not> is_hit cfg q"
    and "is_hit cfg q"
  shows "(stdin st = [] \<longrightarrow>
            fst (main_loop cfg ((pre @ q # post) # rounds) st) = AwaitingInput \<and>
            total_attempts (snd (main_loop cfg ((pre @ q # post) # rounds) st))
              = total_attempts st + length pre + 1 \<and>
            submitted (snd (main_loop cfg ((pre @ q # post) # rounds) st))
              = submitted st @ [length (pre @ q # post)]) \<and>
         (stdin st = [line] \<and> user_input line \<noteq> ''q'' \<and> (\<forall>q' \<in> set post. \<not> is_hit cfg q') \<longrightarrow>
            fst (main_loop cfg [pre @ q # post] st) = Running \<and>
            total_attempts (snd (main_loop cfg [pre @ q # post] st))
              = total_attempts st + length (pre @ q # post))"
proof -
  let ?st0 = "emit (Submit (length (pre @ q # post))) st"
  obtain st1 where 1: "collect cfg (pre @ q # post) 0 ?st0 = collect cfg (q # post) (0 + length pre) st1"
    "total_attempts st1 = total_attempts ?st0 + length pre" "stdin st1 = stdin ?st0"
    "submitted st1 = submitted ?st0"
    using collect_misses[OF assms(1), of "q # post" 0 ?st0] by blast
  have blocked: "fst (main_loop cfg ((pre @ q # post) # rounds) st) = AwaitingInput \<and>
            total_attempts (snd (main_loop cfg ((pre @ q # post) # rounds) st))
              = total_attempts st + length pre + 1 \<and>
            submitted (snd (main_loop cfg ((pre @ q # post) # rounds) st))
              = submitted st @ [length (pre @ q # post)]" if "stdin st = []"
  proof -
    have "stdin st1 = []" using that 1 by (simp add: session_emit_simps)
    from collect_hit_blocked[OF assms(2) this, of post "0 + length pre"]
    obtain st2 where 2: "collect cfg (q # post) (0 + length pre) st1 = (AwaitingInput, st2)"
      "total_attempts st2 = Suc (total_attempts st1)" "submitted st2 = submitted st1"
      by blast
    have "main_loop cfg ((pre @ q # post) # rounds) st = (AwaitingInput, st2)"
      using 1(1) 2(1) by simp
    then show ?thesis
      using 1 2 by (simp add: session_emit_simps submitted_emit_Submit)
  qed
  have resumed: "fst (main_loop cfg [pre @ q # post] st) = Running \<and>
            total_attempts (snd (main_loop cfg [pre @ q # post] st))
              = total_attempts st + length (pre @ q # post)"
    if "stdin st = [line]" "user_input line \<noteq> ''q''" "\<forall>q' \<in> set post. \<not> is_hit cfg q'"
  proof -
    have "stdin st1 = line # []" using that 1 by (simp add: session_emit_simps)
    from collect_hit_continue[OF assms(2) this that(2), of post "0 + length pre"]
    obtain st2 where 2: "collect cfg (q # post) (0 + length pre) st1
        = collect cfg post (Suc (0 + length pre)) st2"
      "total_attempts st2 = Suc (total_attempts st1)"
      by blast
    from collect_misses[OF that(3), of "[]" "Suc (0 + length pre)" st2]
    obtain st3 where 3: "collect cfg post (Suc (0 + length pre)) st2 = (Running, st3)"
      "total_attempts st3 = total_attempts st2 + length post"
      by auto
    have "main_loop cfg [pre @ q # post] st = (Running, emit Sleep st3)"
      using 1(1) 2(1) 3(1) by simp
    then show ?thesis
      using 1 2 3 by (simp add: session_emit_simps)
  qed
  from blocked resumed show ?thesis by blast
qed

text \<open>
  A round of three with the hit second and a further round behind it: at the prompt two
  attempts are counted and one round of three has been submitted.
\<close>

theorem gate_presented_at_once_witness:
  "fst (main_loop default_config [[miss_query, hit_query, miss_query], [miss_query]]
          (initial_session [])) = AwaitingInput \<and>
   total_attempts (snd (main_loop default_config [[miss_query, hit_query, miss_query], [miss_query]]
          (initial_session []))) = 2 \<and>
   submitted (snd (main_loop default_config [[miss_query, hit_query, miss_query], [miss_query]]
          (initial_session []))) = [3]"
proof -
  have "\<forall>q \<in> set [miss_query]. \<not> is_hit default_config q"
    using is_hit_examples by simp
  moreover have "stdin (initial_session [] :: unit session) = []"
    "total_attempts (initial_session [] :: unit session) = 0"
    "submitted (initial_session [] :: unit session) = []"
    by (simp_all add: initial_session_def submitted_def)
  ultimately show ?thesis
    using gate_presented_at_once[of "[miss_query]" default_config hit_query
        "initial_session []" "[miss_query]" "[[miss_query]]"]
      is_hit_examples(1)
    by simp
qed

subsection \<open>C4: four identical digits\<close>

text \<open>
  C4: with \<^verbatim>\<open>ENABLE_A4\<close> on, a string that holds the same digit four or more times in a
  row is matched; when it contains no configured target, the reason is the one of the A4
  rule, which names A4 and is not the reason of the A3 rule, whether \<^verbatim>\<open>ENABLE_A3\<close> is
  on or not.
\<close>

theorem four_run_priority:
  assumes "ENABLE_A4 cfg"
    and "is_digit d"
    and "4 \<le> n"
    and "sublist (replicate n d) s"
  shows "fst (check_number_rules cfg (Some s)) \<and>
         (\<not> has_target cfg s \<longrightarrow> check_number_rules cfg (Some s) = (True, msg_A4)) \<and>
         msg_A4 \<noteq> msg_A3 \<and> sublist ''A4'' msg_A4"
proof -
  have run: "has_run 4 s"
    using assms(2-4) has_run_mono[of 4 n s] by (auto simp: has_run_def)
  then have ne: "s \<noteq> []" by (auto simp: has_run_def)
  have "fst (check_number_rules cfg (Some s))"
    using run assms(1) ne by (simp add: check_number_rules_fires rule_fires_def)
  moreover have "check_number_rules cfg (Some s) = (True, msg_A4)" if "\<not> has_target cfg s"
    using that run assms(1) ne
    by (simp add: check_number_rules_def find_target_None_iff[symmetric] re_search_run_3)
  moreover have "msg_A4 \<noteq> msg_A3"
    by (simp add: msg_A4_def msg_A3_def msg_run_def)
  moreover have "sublist ''A4'' msg_A4"
    by (simp add: msg_A4_def msg_run_def msg_rule_def sublist_code)
  ultimately show ?thesis by blast
qed

text \<open>The number 77771234 under the default configuration.\<close>

theorem four_run_priority_witness:
  "fst (check_number_rules default_config (Some ''77771234'')) \<and>
   check_number_rules default_config (Some ''77771234'') = (True, msg_A4) \<and>
   msg_A4 \<noteq> msg_A3 \<and> sublist ''A4'' msg_A4"
proof -
  have "ENABLE_A4 default_config" by (simp add: default_config_def)
  moreover have "is_digit (CHR ''7'')" by (simp add: is_digit_def)
  moreover have "sublist (replicate 4 (CHR ''7'')) ''77771234''"
    by (simp add: eval_nat_numeral sublist_code)
  moreover have "\<not> has_target default_config ''77771234''"
    by (simp add: has_target_def default_config_def sublist_code)
  ultimately show ?thesis
    using four_run_priority[of default_config "CHR ''7''" 4 "''77771234''"] by simp
qed

subsection \<open>C5: three identical digits\<close>

text \<open>
  C5: take a string that holds some digit three times in a row and none four times,
  contains no configured target, and has no ascending or descending run that an enabled
  sequence rule would report. With \<^verbatim>\<open>ENABLE_A3\<close> on it is matched (by the A3 rule);
  with \<^verbatim>\<open>ENABLE_A3\<close> off it is not matched.
\<close>

theorem three_run_toggle:
  assumes "has_run 3 s"
    and "\<not> has_run 4 s"
    and "\<not> has_target cfg s"
    and "\<not> has_seq 5 s"
    and "ENABLE_ABCD cfg \<longrightarrow> \<not> has_seq 4 s"
    and "ENABLE_ABC cfg \<longrightarrow> \<not> has_seq 3 s"
  shows "(ENABLE_A3 cfg \<longrightarrow> check_number_rules cfg (Some s) = (True, msg_A3)) \<and>
         (\<not> ENABLE_A3 cfg \<longrightarrow> check_number_rules cfg (Some s) = (False, msg_ordinary))"
proof -
  have ne: "s \<noteq> []" using assms(1) by (auto simp: has_run_def)
  have none: "find (\<lambda>target. sublist target s) (CUSTOM_TARGETS cfg) = None"
    using assms(3) by (simp add: find_target_None_iff)
  have on: "check_number_rules cfg (Some s) = (True, msg_A3)" if "ENABLE_A3 cfg"
    using that ne none assms(1,2)
    by (simp add: check_number_rules_def re_search_run_3 re_search_run_2)
  have off: "check_number_rules cfg (Some s) = (False, msg_ordinary)" if "\<not> ENABLE_A3 cfg"
  proof -
    have "\<not> rule_fires cfg s"
      using that assms(2-6) by (auto simp: rule_fires_def)
    then show ?thesis
      using ne by (simp add: check_number_rules_fires check_number_rules_ordinary)
  qed
  from on off show ?thesis by blast
qed

text \<open>The number 13339, under the default configuration and with the A3 rule switched off.\<close>

theorem three_run_toggle_witness:
  "check_number_rules default_config (Some ''13339'') = (True, msg_A3) \<and>
   check_number_rules (default_config\<lparr>ENABLE_A3 := False\<rparr>) (Some ''13339'')
     = (False, msg_ordinary)"
proof -
  have run: "has_run 3 ''13339''" "\<not> has_run 4 ''13339''"
    unfolding re_search_run_2[symmetric] re_search_run_3[symmetric] by code_simp+
  have seq: "\<not> has_seq 5 ''13339''" "\<not> has_seq 4 ''13339''"
    by (simp_all add: has_seq_iff; code_simp)+
  have tgt: "\<not> has_target default_config ''13339''"
    "\<not> has_target (default_config\<lparr>ENABLE_A3 := False\<rparr>) ''13339''"
    unfolding find_target_None_iff[symmetric] by code_simp+
  have cfg: "ENABLE_A3 default_config" "\<not> ENABLE_ABC default_config"
    "\<not> ENABLE_A3 (default_config\<lparr>ENABLE_A3 := False\<rparr>)"
    "\<not> ENABLE_ABC (default_config\<lparr>ENABLE_A3 := False\<rparr>)"
    by (simp_all add: default_config_def)
  show ?thesis
    using three_run_toggle[of "''13339''" default_config]
      three_run_toggle[of "''13339''" "default_config\<lparr>ENABLE_A3 := False\<rparr>"]
      run seq tgt cfg
    by simp
qed

subsection \<open>C6: the two ways not to match\<close>

text \<open>
  C6, as stated, gives the two reasons as the strings "empty input" and "ordinary
  number". The strings the function returns are the Chinese literals of the source, not
  these.
\<close>

theorem reason_literals_differ:
  "check_number_rules default_config (Some ''13579'') \<noteq> (False, ''ordinary number'') \<and>
   check_number_rules default_config (Some '''') \<noteq> (False, ''empty input'') \<and>
   check_number_rules default_config None \<noteq> (False, ''empty input'')"
  by code_simp

text \<open>
  C6 (amended): \<^verbatim>\<open>check_number_rules\<close> returns matched = false in exactly two cases.
  For \<^verbatim>\<open>None\<close> and for the empty string the result is matched = false with the
  source's literal for "the number is empty", under every configuration, so without a
  rule being consulted. For a non-empty string on which no rule fires the result is
  matched = false with the source's literal for "ordinary number". On every other input
  the result is matched = true. The two literals are different strings.
\<close>

theorem no_match_two_cases:
  "(case v of
      None \<Rightarrow> check_number_rules cfg v = (False, msg_empty)
    | Some s \<Rightarrow>
        if s = [] then check_number_rules cfg v = (False, msg_empty)
        else if rule_fires cfg s then fst (check_number_rules cfg v)
        else check_number_rules cfg v = (False, msg_ordinary)) \<and>
   msg_empty \<noteq> msg_ordinary"
proof -
  have "check_number_rules cfg None = (False, msg_empty)"
    "check_number_rules cfg (Some []) = (False, msg_empty)"
    by (simp_all add: check_number_rules_def)
  moreover have "msg_empty \<noteq> msg_ordinary"
    by (simp add: msg_empty_def msg_ordinary_def)
  ultimately show ?thesis
    by (auto simp: check_number_rules_fires check_number_rules_ordinary split: option.splits)
qed

text \<open>The number 13579, the empty string and \<^verbatim>\<open>None\<close> under the default configuration.\<close>

theorem no_match_two_cases_witness:
  "check_number_rules default_config (Some ''13579'') = (False, msg_ordinary) \<and>
   check_number_rules default_config (Some '''') = (False, msg_empty) \<and>
   check_number_rules default_config None = (False, msg_empty)"
proof -
  have "\<not> rule_fires default_config ''13579''"
    unfolding rule_fires_code by code_simp
  then show ?thesis
    using no_match_two_cases[where v = "Some ''13579''" and cfg = default_config]
      no_match_two_cases[where v = "Some ''''" and cfg = default_config]
      no_match_two_cases[where v = None and cfg = default_config]
    by simp
qed

subsection \<open>C7: the reason names the rule\<close>

text \<open>
  C7: whenever \<^verbatim>\<open>check_number_rules\<close> returns matched = true, its reason is the reason
  string of a rule that applies to the candidate under the configuration; no other rule
  has that reason string, so the reason tells which rule fired; and when that rule is one
  of the ascending or descending sequence rules, the reason contains the run it reports
  and the run occurs in the candidate.
\<close>

theorem reason_identifies_rule:
  assumes "fst (check_number_rules cfg v)"
  shows "\<exists>s r. v = Some s \<and> snd (check_number_rules cfg v) = reason_of r \<and>
           applies cfg s r \<and>
           (\<forall>r'. reason_of r' = reason_of r \<longrightarrow> r' = r) \<and>
           (\<forall>w. run_of r = Some w \<longrightarrow> sublist w (reason_of r) \<and> sublist w s)"
proof -
  from assms obtain s where v: "v = Some s" and ne: "s \<noteq> []"
    by (cases v) (auto simp: check_number_rules_def split: if_splits)
  have "\<exists>r. snd (check_number_rules cfg (Some s)) = reason_of r \<and> applies cfg s r \<and>
            (\<forall>w. run_of r = Some w \<longrightarrow> sublist w (reason_of r) \<and> sublist w s)"
  proof (cases "find (\<lambda>target. sublist target s) (CUSTOM_TARGETS cfg)")
    case (Some t)
    then have "t \<in> set (CUSTOM_TARGETS cfg) \<and> sublist t s"
      by (auto simp: find_Some_iff)
    then have "applies cfg s (Literal t)" by simp
    moreover have "snd (check_number_rules cfg (Some s)) = reason_of (Literal t)"
      using Some ne by (simp add: check_number_rules_def)
    moreover have "run_of (Literal t) = None" by simp
    ultimately show ?thesis by (metis option.distinct(1))
  next
    case None
    show ?thesis
    proof (cases "ENABLE_A4 cfg \<and> re_search_run 3 s")
      case True
      then have "applies cfg s RunA4 \<and> snd (check_number_rules cfg (Some s)) = reason_of RunA4"
        using None ne by (simp add: check_number_rules_def re_search_run_3)
      moreover have "run_of RunA4 = None" by simp
      ultimately show ?thesis by (metis option.distinct(1))
    next
      case no4: False
      show ?thesis
      proof (cases "ENABLE_A3 cfg \<and> re_search_run 2 s")
        case True
        then have "applies cfg s RunA3 \<and> snd (check_number_rules cfg (Some s)) = reason_of RunA3"
          using None ne no4 by (auto simp: check_number_rules_def re_search_run_2)
        moreover have "run_of RunA3 = None" by simp
        ultimately show ?thesis by (metis option.distinct(1))
      next
        case no3: False
        have eq: "check_number_rules cfg (Some s) = check_sequences cfg s"
          using None ne no4 no3 by (auto simp: check_number_rules_def)
        with assms v have "fst (check_sequences cfg s)" by simp
        from check_sequences_reason[OF this] eq show ?thesis
          by (metis option.inject snd_conv)
      qed
    qed
  qed
  then show ?thesis using v reason_of_inj by blast
qed

text \<open>The number 9754321 under the default configuration: the descending run 54321.\<close>

theorem reason_identifies_rule_witness:
  "fst (check_number_rules default_config (Some ''9754321'')) \<and>
   (\<exists>s r. Some ''9754321'' = Some s \<and>
      snd (check_number_rules default_config (Some ''9754321'')) = reason_of r \<and>
      applies default_config s r)"
proof -
  have "fst (check_number_rules default_config (Some ''9754321''))" by code_simp
  then show ?thesis
    using reason_identifies_rule[of default_config "Some ''9754321''"] by blast
qed

subsection \<open>C8: the operator's answer\<close>

text \<open>
  C8: at the prompt the loop stops only when the operator's line, stripped of the
  whitespace at its ends and in lower case, is the token q (so when the stripped line is q
  or Q), whatever characters the line holds. It then ends with exit code
  0 and submits no further round, whatever rounds would follow. On any other line, the
  empty line among them, it goes on: printing is allowed again, the line is consumed and
  the loop reads the next result of the round; when the rest of the round holds no
  further hit, it is counted to its end and the following rounds are run.
\<close>

theorem stop_only_on_q:
  assumes "\<forall>q \<in> set pre. \<not> is_hit cfg q"
    and "is_hit cfg q"
    and "stdin st = line # rest"
  shows "(user_input line = ''q'' \<longleftrightarrow> py_strip line = ''q'' \<or> py_strip line = ''Q'') \<and>
         (user_input line = ''q'' \<longrightarrow>
            fst (main_loop cfg ((pre @ q # post) # rounds) st) = Exited 0 \<and>
            submitted (snd (main_loop cfg ((pre @ q # post) # rounds) st))
              = submitted st @ [length (pre @ q # post)]) \<and>
         (user_input line \<noteq> ''q'' \<longrightarrow>
            (\<exists>st'. main_loop cfg ((pre @ q # post) # rounds) st
                     = (case collect cfg post (Suc (length pre)) st' of
                          (Running, st'') \<Rightarrow> main_loop cfg rounds (emit Sleep st'')
                        | (other, st'') \<Rightarrow> (other, st'')) \<and>
                   total_attempts st' = total_attempts st + length pre + 1 \<and>
                   allow_printing st' \<and> stdin st' = rest)) \<and>
         (user_input line \<noteq> ''q'' \<and> (\<forall>q' \<in> set post. \<not> is_hit cfg q') \<longrightarrow>
            (\<exists>st'. main_loop cfg ((pre @ q # post) # rounds) st = main_loop cfg rounds st' \<and>
                   total_attempts st' = total_attempts st + length (pre @ q # post) \<and>
                   allow_printing st' \<and> stdin st' = rest)) \<and>
         user_input '''' \<noteq> ''q''"
proof -
  let ?st0 = "emit (Submit (length (pre @ q # post))) st"
  obtain st1 where 1: "collect cfg (pre @ q # post) 0 ?st0 = collect cfg (q # post) (0 + length pre) st1"
    "total_attempts st1 = total_attempts ?st0 + length pre" "stdin st1 = stdin ?st0"
    "submitted st1 = submitted ?st0"
    using collect_misses[OF assms(1), of "q # post" 0 ?st0] by blast
  have in1: "stdin st1 = line # rest" using assms(3) 1 by (simp add: session_emit_simps)
  have stop: "fst (main_loop cfg ((pre @ q # post) # rounds) st) = Exited 0 \<and>
            submitted (snd (main_loop cfg ((pre @ q # post) # rounds) st))
              = submitted st @ [length (pre @ q # post)]" if "user_input line = ''q''"
  proof -
    from collect_hit_stop[OF assms(2) in1 that, of post "0 + length pre"]
    obtain st2 where 2: "collect cfg (q # post) (0 + length pre) st1 = (Exited 0, st2)"
      "submitted st2 = submitted st1"
      by blast
    have "main_loop cfg ((pre @ q # post) # rounds) st = (Exited 0, st2)"
      using 1(1) 2(1) by simp
    then show ?thesis
      using 1 2 by (simp add: submitted_emit_Submit)
  qed
  have goes_on: "\<exists>st'. main_loop cfg ((pre @ q # post) # rounds) st
                     = (case collect cfg post (Suc (length pre)) st' of
                          (Running, st'') \<Rightarrow> main_loop cfg rounds (emit Sleep st'')
                        | (other, st'') \<Rightarrow> (other, st'')) \<and>
                   total_attempts st' = total_attempts st + length pre + 1 \<and>
                   allow_printing st' \<and> stdin st' = rest"
    if "user_input line \<noteq> ''q''"
  proof -
    from collect_hit_continue[OF assms(2) in1 that, of post "0 + length pre"]
    obtain st2 where 2: "collect cfg (q # post) (0 + length pre) st1
        = collect cfg post (Suc (0 + length pre)) st2"
      "total_attempts st2 = Suc (total_attempts st1)" "stdin st2 = rest" "allow_printing st2"
      by blast
    have "main_loop cfg ((pre @ q # post) # rounds) st
            = (case collect cfg post (Suc (length pre)) st2 of
                 (Running, st'') \<Rightarrow> main_loop cfg rounds (emit Sleep st'')
               | (other, st'') \<Rightarrow> (other, st''))"
      using 1(1) 2(1) by simp
    moreover have "total_attempts st2 = total_attempts st + length pre + 1"
      using 1 2 by (simp add: session_emit_simps)
    ultimately show ?thesis using 2(3,4) by blast
  qed
  have continue: "\<exists>st'. main_loop cfg ((pre @ q # post) # rounds) st = main_loop cfg rounds st' \<and>
                   total_attempts st' = total_attempts st + length (pre @ q # post) \<and>
                   allow_printing st' \<and> stdin st' = rest"
    if "user_input line \<noteq> ''q''" "\<forall>q' \<in> set post. \<not> is_hit cfg q'"
  proof -
    from goes_on[OF that(1)]
    obtain st2 where 2: "main_loop cfg ((pre @ q # post) # rounds) st
                     = (case collect cfg post (Suc (length pre)) st2 of
                          (Running, st'') \<Rightarrow> main_loop cfg rounds (emit Sleep st'')
                        | (other, st'') \<Rightarrow> (other, st''))"
      "total_attempts st2 = total_attempts st + length pre + 1" "allow_printing st2"
      "stdin st2 = rest"
      by blast
    from collect_misses[OF that(2), of "[]" "Suc (length pre)" st2]
    obtain st3 where 3: "collect cfg post (Suc (length pre)) st2 = (Running, st3)"
      "total_attempts st3 = total_attempts st2 + length post" "stdin st3 = stdin st2"
      "allow_printing st3 = allow_printing st2"
      by auto
    have "main_loop cfg ((pre @ q # post) # rounds) st = main_loop cfg rounds (emit Sleep st3)"
      using 2(1) 3(1) by simp
    moreover have "total_attempts (emit Sleep st3) = total_attempts st + length (pre @ q # post)"
      using 2 3 by (simp add: session_emit_simps)
    moreover have "allow_printing (emit Sleep st3) \<and> stdin (emit Sleep st3) = rest"
      using 2 3 by (simp add: session_emit_simps)
    ultimately show ?thesis by blast
  qed
  have "user_input '''' \<noteq> ''q''"
    by code_simp
  with stop goes_on continue user_input_q show ?thesis by blast
qed

text \<open>
  The operator answers the hit of the first round with a capital Q between blanks, or
  with q followed by the ideographic space U+3000: the run ends with exit code 0, and the
  second round is never submitted. With the empty line instead, both rounds are run to
  their end and all four results are counted.
\<close>

theorem stop_only_on_q_witness:
  "fst (main_loop default_config [[miss_query, hit_query, miss_query], [miss_query]]
          (initial_session ['' Q ''])) = Exited 0 \<and>
   submitted (snd (main_loop default_config [[miss_query, hit_query, miss_query], [miss_query]]
          (initial_session ['' Q '']))) = [3] \<and>
   fst (main_loop default_config [[miss_query, hit_query, miss_query], [miss_query]]
          (initial_session [''q'' @ [CHR 0xE3, CHR 0x80, CHR 0x80]])) = Exited 0 \<and>
   fst (main_loop default_config [[miss_query, hit_query, miss_query], [miss_query]]
          (initial_session [''''])) = Running \<and>
   total_attempts (snd (main_loop default_config [[miss_query, hit_query, miss_query], [miss_query]]
          (initial_session ['''']))) = 4"
proof -
  have misses: "\<forall>q \<in> set [miss_query]. \<not> is_hit default_config q"
    using is_hit_examples by simp
  have "stdin (initial_session ['' Q ''] :: unit session) = '' Q '' # []"
    by (simp add: initial_session_def)
  moreover have "user_input '' Q '' = ''q''" by code_simp
  moreover have "submitted (initial_session ['' Q ''] :: unit session) = []"
    by (simp add: initial_session_def submitted_def)
  ultimately have blanks: "fst (main_loop default_config
          [[miss_query, hit_query, miss_query], [miss_query]]
          (initial_session ['' Q ''])) = Exited 0 \<and>
     submitted (snd (main_loop default_config [[miss_query, hit_query, miss_query], [miss_query]]
          (initial_session ['' Q '']))) = [3]"
    using stop_only_on_q[of "[miss_query]" default_config hit_query
        "initial_session ['' Q '']" "'' Q ''" "[]" "[miss_query]" "[[miss_query]]"]
      is_hit_examples(1) misses
    by simp
  have "stdin (initial_session [''q'' @ [CHR 0xE3, CHR 0x80, CHR 0x80]] :: unit session)
          = (''q'' @ [CHR 0xE3, CHR 0x80, CHR 0x80]) # []"
    by (simp add: initial_session_def)
  moreover have "user_input (''q'' @ [CHR 0xE3, CHR 0x80, CHR 0x80]) = ''q''" by code_simp
  ultimately have wide: "fst (main_loop default_config
          [[miss_query, hit_query, miss_query], [miss_query]]
          (initial_session [''q'' @ [CHR 0xE3, CHR 0x80, CHR 0x80]])) = Exited 0"
    using stop_only_on_q[of "[miss_query]" default_config hit_query
        "initial_session [''q'' @ [CHR 0xE3, CHR 0x80, CHR 0x80]]"
        "''q'' @ [CHR 0xE3, CHR 0x80, CHR 0x80]" "[]" "[miss_query]" "[[miss_query]]"]
      is_hit_examples(1) misses
    by simp
  have "fst (main_loop default_config [[miss_query, hit_query, miss_query], [miss_query]]
          (initial_session [''''])) = Running \<and>
   total_attempts (snd (main_loop default_config [[miss_query, hit_query, miss_query], [miss_query]]
          (initial_session ['''']))) = 4"
    by code_simp
  with blanks wide show ?thesis by blast
qed

subsection \<open>C9: the worker never raises\<close>

text \<open>
  C9: whatever the call of the client does, \<^verbatim>\<open>worker_task\<close> returns a result and lets no
  exception out; the status of the result is FOUND, RETRY or ERROR; and when an exception
  is raised inside its body, the result is the one with status ERROR.
\<close>

theorem worker_task_total:
  "\<exists>result. worker_task cfg q = Inr result \<and>
      status result \<in> {''FOUND'', ''RETRY'', ''ERROR''} \<and>
      (\<forall>e. worker_body cfg q = Inl e \<longrightarrow> result = ERROR)"
proof -
  obtain result where r: "worker_task cfg q = Inr result"
    using worker_task_Inr by blast
  have "result = ERROR" if "worker_body cfg q = Inl e" for e
    using r that by (simp add: worker_task_def)
  with r worker_task_status[OF r] show ?thesis by blast
qed

text \<open>A call that raises.\<close>

theorem worker_task_total_witness:
  "worker_task default_config (Inl (PyException ''ConnectionError'') :: unit query) = Inr ERROR"
proof -
  have "worker_body default_config (Inl (PyException ''ConnectionError'') :: unit query)
          = Inl (PyException ''ConnectionError'')"
    by (simp add: worker_body_def)
  then show ?thesis
    using worker_task_total[of default_config "Inl (PyException ''ConnectionError'') :: unit query"]
    by auto
qed

subsection \<open>C10: no match and no candidate look alike\<close>

text \<open>
  C10: a call that returns a candidate which the rule engine does not match, and a call
  that returns \<^verbatim>\<open>(None, None)\<close>, give the same result of \<^verbatim>\<open>worker_task\<close>: the one with
  status RETRY, which carries nothing else.
\<close>

theorem no_match_and_no_candidate_alike:
  assumes "\<not> fst (check_number_rules cfg (Some s))"
  shows "worker_task cfg (Inr (Some s, raw)) = Inr RETRY \<and>
         worker_task cfg (Inr (None, None)) = (Inr RETRY :: py_exception + 'r outcome) \<and>
         worker_task cfg (Inr (Some s, raw)) = worker_task cfg (Inr (None, None :: 'r option))"
  using assms by (auto simp: worker_task_def worker_body_def split: prod.splits)

text \<open>The ordinary number 13579 against a call without a candidate.\<close>

theorem no_match_and_no_candidate_alike_witness:
  "worker_task default_config (Inr (Some ''13579'', Some ())) = Inr RETRY \<and>
   worker_task default_config (Inr (None, None)) = (Inr RETRY :: py_exception + unit outcome)"
proof -
  have "\<not> fst (check_number_rules default_config (Some ''13579''))" by code_simp
  then show ?thesis
    using no_match_and_no_candidate_alike[of default_config "''13579''" "Some ()"] by simp
qed

end
